theory Spec2Isabelle
  imports Main "HOL-Library.Sublist" "HOL-Library.Multiset"
begin

section \<open>The scam-report store of \<open>server.js\<close>\<close>

text \<open>
  The development embeds the four request handlers of \<open>server.js\<close> together with the two
  helpers \<open>readScammers\<close> and \<open>writeScammers\<close>. Every handler is a function from the
  state of the disk to a response and the state of the disk afterwards.

  Conventions of the embedding:
  \<^item> a JavaScript string is a \<open>string\<close>; a \<open>char\<close> stands for a code unit in the range
    0 to 255, so white space and letter case are those of that range;
  \<^item> a request field that may be \<open>undefined\<close> is a \<open>string option\<close>; fields that are neither
    absent nor text are outside the model;
  \<^item> \<open>createdAt\<close> is kept as the number of milliseconds that \<open>new Date(createdAt)\<close> yields
    for the ISO text produced by \<open>toISOString\<close>;
  \<^item> the two clock readings of a creation, \<open>Date.now()\<close> and \<open>new Date()\<close>, are inputs;
  \<^item> the upload middleware has run before the creation handler: the handler receives the
    names of the files it stored, and the disk it sees already holds them.
\<close>

subsection \<open>Data\<close>

record report =
  id' :: string
  name :: string
  scamType :: string
  phone :: string
  website :: string
  description :: string
  evidence :: "string list"
  createdAt :: int

text \<open>
  What the bytes of \<open>data/scammers.json\<close> are to \<open>JSON.parse\<close>: nothing at all, text that
  it rejects, or the array of reports that \<open>writeScammers\<close> serialises (the only writer of
  the file; the start-up code writes the empty array). Text that parses to anything else
  than an array of reports holds no collection and is outside the model.
\<close>

datatype content = Empty | Corrupt | Json "report list"

datatype data_file = Missing | File content

datatype fs_error = ENOENT | EACCES

datatype js_error = SyntaxError

text \<open>
  The disk. The data file is missing or holds some bytes; \<open>dataReadable\<close> and
  \<open>dataWritable\<close> say whether the process may read and may write it. Writing changes the
  bytes and neither permission. A write that does not go through is one that fails before
  any byte is written (a read-only file), so it leaves the file as it was. The \<open>uploads\<close>
  directory holds the names in \<open>uploads\<close>; \<open>uploadsLocked\<close> are the names whose removal
  the file system refuses (a directory under that name, or a file that may not be removed).
\<close>

record store =
  dataFile :: data_file
  dataReadable :: bool
  dataWritable :: bool
  uploads :: "string set"
  uploadsLocked :: "string set"

datatype payload = Scammers "report list" | Success string "report option" | ErrorMsg string

type_synonym response = "nat \<times> payload"

record create_req =
  body_name :: "string option"
  body_scamType :: "string option"
  body_phone :: "string option"
  body_website :: "string option"
  body_description :: "string option"
  files :: "string list option"

record clock =
  dateNow :: int
  newDate :: int

subsection \<open>Strings\<close>

definition isWhiteSpace :: "char \<Rightarrow> bool" where
  "isWhiteSpace c =
     (let n = (of_char c :: nat)
      in n = 9 \<or> n = 10 \<or> n = 11 \<or> n = 12 \<or> n = 13 \<or> n = 32 \<or> n = 160)"

definition trim :: "string \<Rightarrow> string" where
  "trim s = rev (dropWhile isWhiteSpace (rev (dropWhile isWhiteSpace s)))"

definition toLowerChar :: "char \<Rightarrow> char" where
  "toLowerChar c =
     (let n = (of_char c :: nat)
      in if (65 \<le> n \<and> n \<le> 90) \<or> (192 \<le> n \<and> n \<le> 214) \<or> (216 \<le> n \<and> n \<le> 222)
         then char_of (n + 32) else c)"

definition toLowerCase :: "string \<Rightarrow> string" where
  "toLowerCase s = map toLowerChar s"

definition includes_str :: "string \<Rightarrow> string \<Rightarrow> bool" where
  "includes_str s t = sublist t s"

text \<open>\<open>!x\<close> on a value that is \<open>undefined\<close> or a string.\<close>

definition falsy :: "string option \<Rightarrow> bool" where
  "falsy x = (case x of None \<Rightarrow> True | Some s \<Rightarrow> s = [])"

text \<open>\<open>x ? x.trim() : ''\<close>\<close>

definition trimOrEmpty :: "string option \<Rightarrow> string" where
  "trimOrEmpty x = (case x of None \<Rightarrow> [] | Some s \<Rightarrow> (if s = [] then [] else trim s))"

text \<open>\<open>Number.prototype.toString\<close> on an integer: its decimal digits.\<close>

definition digitChar :: "int \<Rightarrow> char" where
  "digitChar d = char_of (48 + d)"

function digits :: "int \<Rightarrow> string" where
  "digits n = (if n < 10 then [digitChar n] else digits (n div 10) @ [digitChar (n mod 10)])"
  by pat_completeness auto
termination
  by (relation "measure (\<lambda>n. nat n)") auto

definition numberToString :: "int \<Rightarrow> string" where
  "numberToString i = (if i < 0 then CHR ''-'' # digits (- i) else digits i)"

subsection \<open>The helpers\<close>

definition readFileSync :: "store \<Rightarrow> fs_error + content" where
  "readFileSync st =
     (case dataFile st of
        Missing \<Rightarrow> Inl ENOENT
      | File c \<Rightarrow> (if dataReadable st then Inr c else Inl EACCES))"

definition JSON_parse :: "content \<Rightarrow> js_error + report list" where
  "JSON_parse c = (case c of Empty \<Rightarrow> Inl SyntaxError | Corrupt \<Rightarrow> Inl SyntaxError | Json xs \<Rightarrow> Inr xs)"

definition readScammers :: "store \<Rightarrow> report list" where
  "readScammers st =
     (case readFileSync st of
        Inl e \<Rightarrow> []
      | Inr d \<Rightarrow> (case JSON_parse d of Inl e \<Rightarrow> [] | Inr xs \<Rightarrow> xs))"

definition writeScammers :: "report list \<Rightarrow> store \<Rightarrow> bool \<times> store" where
  "writeScammers scammers st =
     (if dataWritable st then (True, st\<lparr>dataFile := File (Json scammers)\<rparr>) else (False, st))"

subsection \<open>Sorting newest first\<close>

text \<open>
  \<open>xs.sort((a, b) => new Date(b.createdAt) - new Date(a.createdAt))\<close>: a sort by
  descending \<open>createdAt\<close>. Reports created in the same millisecond keep their stored order
  here, as under the stable sort of ECMAScript 2019; no statement below rests on that
  order.
\<close>

definition sortNewestFirst :: "report list \<Rightarrow> report list" where
  "sortNewestFirst xs = sort_key (\<lambda>r. - createdAt r) xs"

subsection \<open>GET /api/scammers\<close>

definition listScammers :: "store \<Rightarrow> response \<times> store" where
  "listScammers st = ((200, Scammers (sortNewestFirst (readScammers st))), st)"

subsection \<open>POST /api/scammer\<close>

definition newScammer :: "clock \<Rightarrow> string \<Rightarrow> string \<Rightarrow> create_req \<Rightarrow> report" where
  "newScammer clk n t rq =
     \<lparr> id' = numberToString (dateNow clk),
       name = trim n,
       scamType = trim t,
       phone = trimOrEmpty (body_phone rq),
       website = trimOrEmpty (body_website rq),
       description = trimOrEmpty (body_description rq),
       evidence = (case files rq of None \<Rightarrow> [] | Some fs \<Rightarrow> fs),
       createdAt = newDate clk \<rparr>"

text \<open>
  The handler. After the validation both \<open>name\<close> and \<open>scamType\<close> are text; the \<open>None\<close>
  branches are the \<open>TypeError\<close> that \<open>.trim()\<close> on \<open>undefined\<close> would raise into the handler's
  \<open>catch\<close>.
\<close>

definition addScammer :: "clock \<Rightarrow> create_req \<Rightarrow> store \<Rightarrow> response \<times> store" where
  "addScammer clk rq st =
     (if falsy (body_name rq) \<or> falsy (body_scamType rq)
      then ((400, ErrorMsg ''Nama dan jenis penipuan wajib diisi''), st)
      else
        (case body_name rq of
           None \<Rightarrow> ((500, ErrorMsg ''Internal server error''), st)
         | Some n \<Rightarrow>
             (case body_scamType rq of
                None \<Rightarrow> ((500, ErrorMsg ''Internal server error''), st)
              | Some t \<Rightarrow>
                  (let scammers = readScammers st @ [newScammer clk n t rq];
                       (ok, st') = writeScammers scammers st
                   in if ok
                      then ((201, Success ''Scammer berhasil ditambahkan''
                                    (Some (newScammer clk n t rq))), st')
                      else ((500, ErrorMsg ''Gagal menyimpan data''), st')))))"

subsection \<open>DELETE /api/scammer/:id\<close>

fun findIndex :: "('a \<Rightarrow> bool) \<Rightarrow> 'a list \<Rightarrow> nat option" where
  "findIndex p [] = None"
| "findIndex p (x # xs) =
     (if p x then Some 0 else (case findIndex p xs of None \<Rightarrow> None | Some i \<Rightarrow> Some (Suc i)))"

definition splice1 :: "nat \<Rightarrow> 'a list \<Rightarrow> 'a list" where
  "splice1 i xs = take i xs @ drop (Suc i) xs"

text \<open>
  \<open>if (fs.existsSync(filePath)) fs.unlinkSync(filePath)\<close> for each name in turn. The loop
  stops at the first removal that the file system refuses, where \<open>unlinkSync\<close> throws; the
  files removed before that stay removed.
\<close>

fun unlinkAll :: "string set \<Rightarrow> string list \<Rightarrow> string set \<Rightarrow> fs_error option \<times> string set" where
  "unlinkAll locked [] up = (None, up)"
| "unlinkAll locked (f # fs) up =
     (if f \<in> up
      then (if f \<in> locked then (Some EACCES, up) else unlinkAll locked fs (up - {f}))
      else unlinkAll locked fs up)"

text \<open>
  The handler. An exception of \<open>unlinkSync\<close> leaves the loop and the \<open>try\<close> block: the
  \<open>catch\<close> answers 500, and neither \<open>splice\<close> nor \<open>writeScammers\<close> is reached.
\<close>

definition deleteScammer :: "string \<Rightarrow> store \<Rightarrow> response \<times> store" where
  "deleteScammer i st =
     (let scammers = readScammers st
      in case findIndex (\<lambda>s. id' s = i) scammers of
           None \<Rightarrow> ((404, ErrorMsg ''Scammer tidak ditemukan''), st)
         | Some k \<Rightarrow>
             (let scammer = scammers ! k;
                  (thrown, up) = (if evidence scammer = [] then (None, uploads st)
                                  else unlinkAll (uploadsLocked st) (evidence scammer) (uploads st));
                  st1 = st\<lparr>uploads := up\<rparr>
              in case thrown of
                   Some e \<Rightarrow> ((500, ErrorMsg ''Internal server error''), st1)
                 | None \<Rightarrow>
                     (let (ok, st2) = writeScammers (splice1 k scammers) st1
                      in if ok
                         then ((200, Success ''Scammer berhasil dihapus'' None), st2)
                         else ((500, ErrorMsg ''Gagal menghapus data''), st2))))"

subsection \<open>GET /api/search\<close>

definition matchesTerm :: "string \<Rightarrow> report \<Rightarrow> bool" where
  "matchesTerm searchTerm scammer =
     (includes_str (toLowerCase (name scammer)) searchTerm \<or>
      includes_str (toLowerCase (scamType scammer)) searchTerm \<or>
      (phone scammer \<noteq> [] \<and> includes_str (phone scammer) searchTerm) \<or>
      (description scammer \<noteq> [] \<and> includes_str (toLowerCase (description scammer)) searchTerm))"

definition searchScammers :: "string option \<Rightarrow> store \<Rightarrow> response \<times> store" where
  "searchScammers q st =
     (if falsy q then ((200, Scammers []), st)
      else
        (case q of
           None \<Rightarrow> ((500, ErrorMsg ''Internal server error''), st)
         | Some s \<Rightarrow>
             ((200, Scammers (sortNewestFirst
                               (filter (matchesTerm (toLowerCase s)) (readScammers st)))), st)))"

text \<open>The reports a response carries.\<close>

definition reportsOf :: "response \<times> store \<Rightarrow> report list" where
  "reportsOf x = (case snd (fst x) of Scammers xs \<Rightarrow> xs | Success m r \<Rightarrow> [] | ErrorMsg m \<Rightarrow> [])"

definition statusOf :: "response \<times> store \<Rightarrow> nat" where
  "statusOf x = fst (fst x)"

subsection \<open>Requests that arrive together\<close>

text \<open>
  The body of the creation handler, from the validation to the answer, is synchronous: it
  has no \<open>await\<close> and no callback, so the run-to-completion event loop serves creations
  that arrive together one whole handler after another, in some order. Each creation comes
  with the clock readings its handler makes.
\<close>

fun createAll :: "(clock \<times> create_req) list \<Rightarrow> store \<Rightarrow> store" where
  "createAll [] st = st"
| "createAll ((clk, rq) # cs) st = createAll cs (snd (addScammer clk rq st))"

subsection \<open>Notions used by the statements\<close>

text \<open>\<open>q\<close> is a substring of \<open>s\<close> when letter case is ignored.\<close>

definition ciSubstring :: "string \<Rightarrow> string \<Rightarrow> bool" where
  "ciSubstring q s = sublist (toLowerCase q) (toLowerCase s)"

text \<open>Reading the collection document fails: \<open>readFileSync\<close> or \<open>JSON.parse\<close> throws.\<close>

definition readFails :: "store \<Rightarrow> bool" where
  "readFails st =
     (case readFileSync st of
        Inl e \<Rightarrow> True
      | Inr d \<Rightarrow> (case JSON_parse d of Inl e \<Rightarrow> True | Inr xs \<Rightarrow> False))"

text \<open>
  A text field of the input as a stored report should show it: trimmed, and empty when the
  field is absent.
\<close>

definition trimmedOrEmpty :: "string option \<Rightarrow> string" where
  "trimmedOrEmpty x = (case x of None \<Rightarrow> [] | Some s \<Rightarrow> trim s)"

text \<open>
  The report \<open>r\<close> is what a creation with input \<open>rq\<close> that began at time \<open>start\<close> should
  leave behind: the trimmed fields, the file names in order, some id, and a creation time
  that is not before \<open>start\<close>.
\<close>

definition matchesInput :: "int \<Rightarrow> create_req \<Rightarrow> report \<Rightarrow> bool" where
  "matchesInput start rq r =
     (name r = trimmedOrEmpty (body_name rq) \<and>
      scamType r = trimmedOrEmpty (body_scamType rq) \<and>
      phone r = trimmedOrEmpty (body_phone rq) \<and>
      website r = trimmedOrEmpty (body_website rq) \<and>
      description r = trimmedOrEmpty (body_description rq) \<and>
      evidence r = (case files rq of None \<Rightarrow> [] | Some fs \<Rightarrow> fs) \<and>
      id' r \<noteq> [] \<and>
      start \<le> createdAt r)"

definition countMatching :: "int \<Rightarrow> create_req \<Rightarrow> report list \<Rightarrow> nat" where
  "countMatching start rq xs = length (filter (matchesInput start rq) xs)"

subsection \<open>Concrete stores and requests\<close>

definition clk0 :: clock where
  "clk0 = \<lparr> dateNow = 1700000000000, newDate = 1700000000000 \<rparr>"

definition emptyStore :: store where
  "emptyStore = \<lparr> dataFile = File (Json []),
       dataReadable = True, dataWritable = True, uploads = {}, uploadsLocked = {} \<rparr>"

text \<open>The empty collection, with the two files of Alice's request already uploaded.\<close>

definition stagedStore :: store where
  "stagedStore = \<lparr> dataFile = File (Json []), dataReadable = True, dataWritable = True,
                   uploads = {''evidence-1.png'', ''evidence-2.png''}, uploadsLocked = {} \<rparr>"

definition missingStore :: store where
  "missingStore = \<lparr> dataFile = Missing,
       dataReadable = True, dataWritable = True, uploads = {}, uploadsLocked = {} \<rparr>"

definition corruptStore :: store where
  "corruptStore = \<lparr> dataFile = File Corrupt,
       dataReadable = True, dataWritable = True, uploads = {}, uploadsLocked = {} \<rparr>"

definition readOnlyStore :: store where
  "readOnlyStore = \<lparr> dataFile = File (Json []),
       dataReadable = True, dataWritable = False, uploads = {}, uploadsLocked = {} \<rparr>"

text \<open>A data file that the process may write and may not read.\<close>

definition writeOnlyStore :: store where
  "writeOnlyStore = \<lparr> dataFile = File (Json []), dataReadable = False, dataWritable = True,
                      uploads = {}, uploadsLocked = {} \<rparr>"

text \<open>A clock that was set back by a millisecond after the call began at 1700000000000.\<close>

definition clkBack :: clock where
  "clkBack = \<lparr> dateNow = 1699999999999, newDate = 1699999999999 \<rparr>"

definition rqAlice :: create_req where
  "rqAlice = \<lparr> body_name = Some ''  Alice Wu '', body_scamType = Some ''Phishing'',
               body_phone = Some '' +1-555-0199'', body_website = None,
               body_description = Some '''',
               files = Some [''evidence-1.png'', ''evidence-2.png''] \<rparr>"

definition rqBob :: create_req where
  "rqBob = \<lparr> body_name = Some ''Bob'', body_scamType = Some ''Lottery'',
             body_phone = None, body_website = Some ''bob.example'',
             body_description = None, files = None \<rparr>"

definition rqBlank :: create_req where
  "rqBlank = \<lparr> body_name = Some ''   '', body_scamType = Some ''Phishing'',
               body_phone = None, body_website = None, body_description = None,
               files = None \<rparr>"

definition rqNoName :: create_req where
  "rqNoName = \<lparr> body_name = None, body_scamType = Some ''Phishing'',
                body_phone = None, body_website = None, body_description = None,
                files = None \<rparr>"

definition rqNoType :: create_req where
  "rqNoType = \<lparr> body_name = Some ''Bob'', body_scamType = None,
                body_phone = None, body_website = None, body_description = None,
                files = None \<rparr>"

definition rqFrank :: create_req where
  "rqFrank = \<lparr> body_name = Some ''Frank'', body_scamType = Some ''Lottery'',
               body_phone = Some ''555-ABC'', body_website = Some ''Shop.example'',
               body_description = None, files = None \<rparr>"

definition rFrank :: report where
  "rFrank = newScammer clk0 ''Frank'' ''Lottery'' rqFrank"

definition frankStore :: store where
  "frankStore = \<lparr> dataFile = File (Json [rFrank]),
       dataReadable = True, dataWritable = True, uploads = {}, uploadsLocked = {} \<rparr>"

definition r2021 :: report where
  "r2021 = \<lparr> id' = ''1609459200000'', name = ''Carol'', scamType = ''Romance'', phone = [],
             website = [], description = [], evidence = [], createdAt = 1609459200000 \<rparr>"

definition r2022 :: report where
  "r2022 = \<lparr> id' = ''1640995200000'', name = ''Dave'', scamType = ''Investment'', phone = [],
             website = [], description = [], evidence = [], createdAt = 1640995200000 \<rparr>"

definition r2023 :: report where
  "r2023 = \<lparr> id' = ''1672531200000'', name = ''Erin'', scamType = ''Phishing'', phone = [],
             website = [], description = [], evidence = [], createdAt = 1672531200000 \<rparr>"

definition threeStore :: store where
  "threeStore = \<lparr> dataFile = File (Json [r2022, r2023, r2021]),
       dataReadable = True, dataWritable = True,
                  uploads = {}, uploadsLocked = {} \<rparr>"

definition rAlice :: report where
  "rAlice = newScammer clk0 ''  Alice Wu '' ''Phishing'' rqAlice"

definition aliceStore :: store where
  "aliceStore = \<lparr> dataFile = File (Json [r2021, rAlice]),
       dataReadable = True, dataWritable = True,
                  uploads = {''evidence-1.png'', ''evidence-2.png'', ''evidence-3.png''}, uploadsLocked = {} \<rparr>"

definition readOnlyAliceStore :: store where
  "readOnlyAliceStore = \<lparr> dataFile = File (Json [r2021, rAlice]),
       dataReadable = True, dataWritable = False,
                  uploads = {''evidence-1.png'', ''evidence-2.png'', ''evidence-3.png''}, uploadsLocked = {} \<rparr>"

text \<open>The same disk, where the second file of Alice's report may not be removed.\<close>

definition lockedAliceStore :: store where
  "lockedAliceStore = \<lparr> dataFile = File (Json [r2021, rAlice]), dataReadable = True,
                  dataWritable = True,
                  uploads = {''evidence-1.png'', ''evidence-2.png'', ''evidence-3.png''},
                  uploadsLocked = {''evidence-2.png''} \<rparr>"

text \<open>The disk after two creations that read the clock in the same millisecond.\<close>

definition twinStore :: store where
  "twinStore = snd (addScammer clk0 rqBob (snd (addScammer clk0 rqAlice stagedStore)))"

section \<open>Properties\<close>

declare digits.simps [simp del]

subsection \<open>Auxiliary facts\<close>

lemma readScammers_cases:
  "readScammers st =
     (case dataFile st of
        File (Json xs) \<Rightarrow> (if dataReadable st then xs else [])
      | _ \<Rightarrow> [])"
  by (simp add: readScammers_def readFileSync_def JSON_parse_def
      split: data_file.splits content.splits)

lemma readFails_empty: "readFails st \<Longrightarrow> readScammers st = []"
  by (auto simp: readFails_def readScammers_def split: sum.splits)

lemma sortNewestFirst_Nil [simp]: "sortNewestFirst [] = []"
  by (simp add: sortNewestFirst_def)

lemma mset_sortNewestFirst: "mset (sortNewestFirst xs) = mset xs"
  by (simp add: sortNewestFirst_def)

lemma set_sortNewestFirst: "set (sortNewestFirst xs) = set xs"
  by (simp add: sortNewestFirst_def)

lemma sorted_sortNewestFirst:
  "sorted_wrt (\<lambda>a b. createdAt b \<le> createdAt a) (sortNewestFirst xs)"
proof -
  have "sorted (map (\<lambda>r. - createdAt r) (sortNewestFirst xs))"
    by (simp add: sortNewestFirst_def)
  then show ?thesis by (simp add: sorted_map)
qed

lemma length_filter_sortNewestFirst:
  "length (filter P (sortNewestFirst xs)) = length (filter P xs)"
proof -
  have "mset (filter P (sortNewestFirst xs)) = mset (filter P xs)"
    by (simp add: mset_sortNewestFirst)
  then show ?thesis by (metis size_mset)
qed

text \<open>Three reports with different creation times come out in one order only.\<close>

lemma sortNewestFirst_three:
  assumes p: "mset xs = {#r1, r2, r3#}"
    and lt: "createdAt r1 < createdAt r2" "createdAt r2 < createdAt r3"
  shows "sortNewestFirst xs = [r3, r2, r1]"
  unfolding sortNewestFirst_def
proof (rule properties_for_sort_key)
  show "mset [r3, r2, r1] = mset xs" using p by (simp add: add_mset_commute)
  show "sorted (map (\<lambda>r. - createdAt r) [r3, r2, r1])" using lt by simp
next
  fix k assume k: "k \<in> set [r3, r2, r1]"
  let ?P = "\<lambda>x. - createdAt k = - createdAt x"
  have "mset (filter ?P xs) = filter_mset ?P {#r1, r2, r3#}" using p by (metis mset_filter)
  also have "\<dots> = {#k#}" using k lt by auto
  finally have "mset (filter ?P xs) = {#k#}" .
  then have a: "filter ?P xs = [k]" by (simp only: mset_single_iff)
  have b: "filter ?P [r3, r2, r1] = [k]" using k lt by auto
  show "filter ?P [r3, r2, r1] = filter ?P xs" using a b by simp
qed

lemma toLowerCase_Nil [simp]: "toLowerCase s = [] \<longleftrightarrow> s = []"
  by (simp add: toLowerCase_def)

text \<open>
  The case-blind substring test of the handler finds \<open>q\<close> exactly when some stretch of \<open>s\<close>
  equals \<open>q\<close> up to letter case.
\<close>

lemma ciSubstring_iff:
  "ciSubstring q s \<longleftrightarrow> (\<exists>u. sublist u s \<and> toLowerCase u = toLowerCase q)"
proof
  assume "ciSubstring q s"
  then obtain ps ss where "map toLowerChar s = ps @ map toLowerChar q @ ss"
    by (auto simp: ciSubstring_def toLowerCase_def sublist_def)
  then obtain a b c where "s = a @ b @ c" "map toLowerChar b = map toLowerChar q"
    by (auto simp: map_eq_append_conv append_eq_map_conv)
  then have "sublist b s \<and> toLowerCase b = toLowerCase q"
    by (auto simp: toLowerCase_def sublist_def)
  then show "\<exists>u. sublist u s \<and> toLowerCase u = toLowerCase q" by blast
next
  assume "\<exists>u. sublist u s \<and> toLowerCase u = toLowerCase q"
  then obtain u where u: "sublist u s" "toLowerCase u = toLowerCase q" by blast
  from u(1) obtain ps ss where "s = ps @ u @ ss" by (auto simp: sublist_def)
  then have "toLowerCase s = toLowerCase ps @ toLowerCase q @ toLowerCase ss"
    using u(2) by (simp add: toLowerCase_def)
  then show "ciSubstring q s" by (auto simp: ciSubstring_def sublist_def)
qed

lemma matchesTerm_website: "matchesTerm t (r\<lparr>website := w\<rparr>) = matchesTerm t r"
  by (simp add: matchesTerm_def)

lemma trim_Nil [simp]: "trim [] = []"
  by (simp add: trim_def)

lemma trimOrEmpty_eq: "trimOrEmpty x = trimmedOrEmpty x"
  by (simp add: trimOrEmpty_def trimmedOrEmpty_def split: option.splits)

lemma digits_not_Nil: "digits n \<noteq> []"
  by (subst digits.simps) simp

lemma numberToString_not_Nil: "numberToString i \<noteq> []"
  by (simp add: numberToString_def digits_not_Nil)

lemma addScammer_ok:
  assumes "body_name rq = Some n" "n \<noteq> []" "body_scamType rq = Some t" "t \<noteq> []"
    and "dataWritable st"
  shows "addScammer clk rq st =
           ((201, Success ''Scammer berhasil ditambahkan'' (Some (newScammer clk n t rq))),
            st\<lparr>dataFile := File (Json (readScammers st @ [newScammer clk n t rq]))\<rparr>)"
  using assms by (simp add: addScammer_def falsy_def writeScammers_def)

lemma matchesInput_newScammer:
  assumes "body_name rq = Some n" "body_scamType rq = Some t" "start \<le> newDate clk"
  shows "matchesInput start rq (newScammer clk n t rq)"
  using assms
  by (simp add: matchesInput_def newScammer_def trimOrEmpty_eq trimmedOrEmpty_def
      numberToString_not_Nil)

lemma findIndex_None: "findIndex p xs = None \<longleftrightarrow> (\<forall>x\<in>set xs. \<not> p x)"
  by (induction xs) (auto split: option.splits)

lemma findIndex_Some:
  "findIndex p xs = Some k \<Longrightarrow> k < length xs \<and> p (xs ! k)"
proof (induction xs arbitrary: k)
  case Nil
  then show ?case by simp
next
  case (Cons x xs)
  show ?case
  proof (cases "p x")
    case True
    with Cons.prems show ?thesis by simp
  next
    case False
    with Cons.prems obtain i where i: "findIndex p xs = Some i" "k = Suc i"
      by (auto split: option.splits)
    from Cons.IH [OF i(1)] i(2) show ?thesis by simp
  qed
qed

text \<open>Cutting out the first element that satisfies \<open>p\<close> removes its first occurrence.\<close>

lemma splice1_remove1:
  "findIndex p xs = Some k \<Longrightarrow> splice1 k xs = remove1 (xs ! k) xs"
proof (induction xs arbitrary: k)
  case Nil
  then show ?case by simp
next
  case (Cons x xs)
  show ?case
  proof (cases "p x")
    case True
    with Cons.prems show ?thesis by (simp add: splice1_def)
  next
    case False
    with Cons.prems obtain i where i: "findIndex p xs = Some i" "k = Suc i"
      by (auto split: option.splits)
    from findIndex_Some [OF i(1)] False have ne: "x \<noteq> xs ! i" by auto
    from Cons.IH [OF i(1)] have "splice1 i xs = remove1 (xs ! i) xs" .
    then show ?thesis using ne i(2) by (simp add: splice1_def)
  qed
qed

lemma unlinkAll_eq:
  "set fs \<inter> up \<inter> locked = {} \<Longrightarrow> unlinkAll locked fs up = (None, up - set fs)"
proof (induction fs arbitrary: up)
  case Nil
  then show ?case by simp
next
  case (Cons f fs)
  from Cons.prems have a: "set fs \<inter> (up - {f}) \<inter> locked = {}" "set fs \<inter> up \<inter> locked = {}"
    by auto
  show ?case
  proof (cases "f \<in> up")
    case True
    with Cons.prems have "f \<notin> locked" by auto
    with True Cons.IH [OF a(1)] show ?thesis by auto
  next
    case False
    with Cons.IH [OF a(2)] show ?thesis by auto
  qed
qed

lemma deleteScammer_notFound:
  assumes "\<forall>r\<in>set (readScammers st). id' r \<noteq> i"
  shows "deleteScammer i st = ((404, ErrorMsg ''Scammer tidak ditemukan''), st)"
proof -
  have "findIndex (\<lambda>s. id' s = i) (readScammers st) = None"
    using assms by (simp add: findIndex_None)
  then show ?thesis by (simp add: deleteScammer_def)
qed

lemma deleteScammer_found:
  assumes r: "filter (\<lambda>x. id' x = i) (readScammers st) = [r]"
    and w: "dataWritable st"
    and u: "set (evidence r) \<inter> uploads st \<inter> uploadsLocked st = {}"
  shows "deleteScammer i st =
           ((200, Success ''Scammer berhasil dihapus'' None),
            st\<lparr>uploads := uploads st - set (evidence r),
               dataFile := File (Json (remove1 r (readScammers st)))\<rparr>)"
proof -
  let ?xs = "readScammers st"
  let ?P = "\<lambda>x. id' x = i"
  have "r \<in> set (filter ?P ?xs)" by (simp add: r)
  then have "findIndex ?P ?xs \<noteq> None" by (auto simp: findIndex_None)
  then obtain k where k: "findIndex ?P ?xs = Some k" by auto
  from findIndex_Some [OF k] have "?xs ! k \<in> set (filter ?P ?xs)" by simp
  then have eq: "?xs ! k = r" by (simp add: r)
  have sp: "splice1 k ?xs = remove1 r ?xs"
    using splice1_remove1 [OF k] eq by simp
  have ul: "unlinkAll (uploadsLocked st) (evidence r) (uploads st)
              = (None, uploads st - set (evidence r))"
    using u by (rule unlinkAll_eq)
  show ?thesis
    using w by (simp add: deleteScammer_def k eq sp ul writeScammers_def Let_def)
qed

text \<open>Once the only report that carries an id is removed, no report carries it.\<close>

lemma remove1_only_carrier:
  assumes "filter P xs = [r]"
  shows "\<forall>x\<in>set (remove1 r xs). \<not> P x"
proof -
  have "filter P (remove1 r xs) = remove1 r (filter P xs)" by (rule filter_remove1)
  then have "filter P (remove1 r xs) = []" by (simp add: assms)
  then show ?thesis by (simp add: filter_empty_conv)
qed

text \<open>
  Creations served one after another lose none: when every write goes through and every
  request passes the validation, the collection grows by one report for each.
\<close>

lemma addScammer_keeps_permissions:
  "dataReadable (snd (addScammer clk rq st)) = dataReadable st \<and>
   dataWritable (snd (addScammer clk rq st)) = dataWritable st"
  by (simp add: addScammer_def writeScammers_def split: option.splits)

lemma addScammer_grows:
  assumes "dataReadable st" "dataWritable st"
    and "falsy (body_name rq) = False" "falsy (body_scamType rq) = False"
  shows "length (readScammers (snd (addScammer clk rq st))) = Suc (length (readScammers st))"
proof -
  from assms(3,4) obtain n t where nt: "body_name rq = Some n" "n \<noteq> []"
      "body_scamType rq = Some t" "t \<noteq> []"
    by (auto simp: falsy_def split: option.splits)
  show ?thesis
    using assms(1) by (simp add: addScammer_ok [OF nt assms(2)] readScammers_cases)
qed

lemma createAll_loses_none:
  assumes "dataReadable st" "dataWritable st"
    and "list_all (\<lambda>p. falsy (body_name (snd p)) = False \<and>
                       falsy (body_scamType (snd p)) = False) cs"
  shows "length (readScammers (createAll cs st)) = length (readScammers st) + length cs"
  using assms
proof (induction cs arbitrary: st)
  case Nil
  then show ?case by simp
next
  case (Cons p cs)
  obtain clk rq where p: "p = (clk, rq)" by (cases p)
  let ?st = "snd (addScammer clk rq st)"
  from Cons.prems(3) p have v: "falsy (body_name rq) = False" "falsy (body_scamType rq) = False"
    and rest: "list_all (\<lambda>p. falsy (body_name (snd p)) = False \<and>
                       falsy (body_scamType (snd p)) = False) cs"
    by simp_all
  have perm: "dataReadable ?st" "dataWritable ?st"
    using Cons.prems(1,2) by (simp_all add: addScammer_keeps_permissions)
  from Cons.IH [OF perm rest] addScammer_grows [OF Cons.prems(1,2) v, of clk]
  show ?case by (simp add: p)
qed

subsection \<open>Identifiers\<close>

text \<open>
  C1: the ids of the reports in the collection are pairwise different, also for two creations
  in one millisecond. The handler takes the id from \<open>Date.now()\<close> alone, so this fails: two
  creations that read the same millisecond leave two reports, for Alice and for Bob, under
  one id.
\<close>

theorem ids_collide_within_one_millisecond:
  "map id' (readScammers twinStore) = [''1700000000000'', ''1700000000000''] \<and>
   map name (readScammers twinStore) = [''Alice Wu'', ''Bob'']"
  by code_simp

text \<open>
  C8: creations that arrive together are served one whole handler after another, so that
  all of them appear in the listing and their ids differ. The first holds
  (\<open>createAll_loses_none\<close>); the second fails: two creations whose handlers read the
  same millisecond, served in either order, are both listed and share one id.
\<close>

theorem creations_together_share_id:
  "length (reportsOf (listScammers (createAll [(clk0, rqAlice), (clk0, rqBob)] stagedStore))) = 2 \<and>
   map id' (readScammers (createAll [(clk0, rqAlice), (clk0, rqBob)] stagedStore))
     = [''1700000000000'', ''1700000000000''] \<and>
   length (reportsOf (listScammers (createAll [(clk0, rqBob), (clk0, rqAlice)] stagedStore))) = 2 \<and>
   map id' (readScammers (createAll [(clk0, rqBob), (clk0, rqAlice)] stagedStore))
     = [''1700000000000'', ''1700000000000'']"
  by code_simp

subsection \<open>Validation of a creation\<close>

text \<open>
  C2, as the code has it: a creation whose \<open>name\<close> or \<open>scamType\<close> is absent or the empty
  string is answered with status 400 and one fixed message that mentions both fields, and
  the disk stays as it was. The test is made on the fields as received, before trimming.
\<close>

theorem addScammer_rejects_missing_required:
  assumes "body_name rq = None \<or> body_name rq = Some [] \<or>
           body_scamType rq = None \<or> body_scamType rq = Some []"
  shows "addScammer clk rq st = ((400, ErrorMsg ''Nama dan jenis penipuan wajib diisi''), st)"
proof -
  from assms have "falsy (body_name rq) \<or> falsy (body_scamType rq)"
    by (auto simp: falsy_def)
  then show ?thesis by (simp add: addScammer_def)
qed

theorem addScammer_rejects_missing_required_witness:
  "body_scamType rqNoType = None \<and>
   addScammer clk0 rqNoType emptyStore
     = ((400, ErrorMsg ''Nama dan jenis penipuan wajib diisi''), emptyStore)"
proof -
  have h: "body_scamType rqNoType = None" by (simp add: rqNoType_def)
  then have "body_name rqNoType = None \<or> body_name rqNoType = Some [] \<or>
             body_scamType rqNoType = None \<or> body_scamType rqNoType = Some []" by simp
  from addScammer_rejects_missing_required [OF this, of clk0 emptyStore] h
  show ?thesis by simp
qed

text \<open>
  C2 as stated fails: a name of three blanks is accepted with status 201 and stored as the
  empty name, and the answer to a missing \<open>name\<close> is the very answer to a missing
  \<open>scamType\<close>, so it cannot tell which field is missing.
\<close>

theorem blank_name_accepted_counterexample:
  "trimmedOrEmpty (body_name rqBlank) = [] \<and>
   statusOf (addScammer clk0 rqBlank emptyStore) = 201 \<and>
   map name (readScammers (snd (addScammer clk0 rqBlank emptyStore))) = [[]] \<and>
   fst (addScammer clk0 rqNoName emptyStore) = fst (addScammer clk0 rqNoType emptyStore)"
  by code_simp

subsection \<open>Search\<close>

text \<open>
  C3: a non-empty query finds a report when the query, as given, is a substring of the
  phone. The handler lower-cases the query once and tests that against the phone as stored,
  while it lower-cases the name, the scam type and the description before it tests them:
  the query \<open>ABC\<close> does not find the report with phone \<open>555-ABC\<close>, although \<open>FRANK\<close> finds
  it by its name \<open>Frank\<close>.
\<close>

theorem search_upper_case_query_misses_phone:
  "rFrank \<in> set (readScammers frankStore) \<and>
   phone rFrank = ''555-ABC'' \<and>
   includes_str (phone rFrank) ''ABC'' \<and>
   reportsOf (searchScammers (Some ''ABC'') frankStore) = [] \<and>
   name rFrank = ''Frank'' \<and>
   reportsOf (searchScammers (Some ''FRANK'') frankStore) = [rFrank]"
  by code_simp

text \<open>
  What the handler computes for a non-empty query: it returns the reports of the collection
  that pass one of its four tests, newest first.
\<close>

lemma searchScammers_returns:
  assumes "q \<noteq> []"
  shows "(r \<in> set (reportsOf (searchScammers (Some q) st)) \<longleftrightarrow>
            r \<in> set (readScammers st) \<and>
            (ciSubstring q (name r) \<or> ciSubstring q (scamType r) \<or>
             ciSubstring q (description r) \<or> includes_str (phone r) (toLowerCase q))) \<and>
         sorted_wrt (\<lambda>a b. createdAt b \<le> createdAt a)
           (reportsOf (searchScammers (Some q) st))"
proof -
  have r: "reportsOf (searchScammers (Some q) st)
             = sortNewestFirst (filter (matchesTerm (toLowerCase q)) (readScammers st))"
    using assms by (simp add: searchScammers_def falsy_def reportsOf_def)
  have t: "toLowerCase q \<noteq> []" using assms by simp
  have m: "matchesTerm (toLowerCase q) r \<longleftrightarrow>
             ciSubstring q (name r) \<or> ciSubstring q (scamType r) \<or>
             ciSubstring q (description r) \<or> includes_str (phone r) (toLowerCase q)"
    using t by (auto simp: matchesTerm_def ciSubstring_def includes_str_def toLowerCase_def)
  have a: "r \<in> set (reportsOf (searchScammers (Some q) st)) \<longleftrightarrow>
            r \<in> set (readScammers st) \<and>
            (ciSubstring q (name r) \<or> ciSubstring q (scamType r) \<or>
             ciSubstring q (description r) \<or> includes_str (phone r) (toLowerCase q))"
    by (simp add: r set_sortNewestFirst m)
  have b: "sorted_wrt (\<lambda>a b. createdAt b \<le> createdAt a)
             (reportsOf (searchScammers (Some q) st))"
    by (simp add: r sorted_sortNewestFirst)
  from a b show ?thesis by simp
qed

text \<open>
  C10: the search does not look at the website. A report whose website contains the
  non-empty query \<open>q\<close>, while \<open>q\<close> matches none of its name, scam type, description and
  phone, is not returned; and whether a report matches does not change with its website.
\<close>

theorem search_ignores_website:
  assumes "q \<noteq> []" and "includes_str (website r) q"
    and "\<not> ciSubstring q (name r)" and "\<not> ciSubstring q (scamType r)"
    and "\<not> ciSubstring q (description r)" and "\<not> includes_str (phone r) (toLowerCase q)"
  shows "r \<notin> set (reportsOf (searchScammers (Some q) st)) \<and>
         matchesTerm (toLowerCase q) (r\<lparr>website := w\<rparr>) = matchesTerm (toLowerCase q) r"
proof -
  have "\<not> matchesTerm (toLowerCase q) r"
    using assms(3-6) by (simp add: matchesTerm_def ciSubstring_def includes_str_def)
  then have "r \<notin> set (reportsOf (searchScammers (Some q) st))"
    using assms(1)
    by (simp add: searchScammers_def falsy_def reportsOf_def set_sortNewestFirst)
  then show ?thesis by (simp add: matchesTerm_website)
qed

theorem search_ignores_website_witness:
  "includes_str (website rFrank) ''Shop'' \<and> rFrank \<in> set (readScammers frankStore) \<and>
   rFrank \<notin> set (reportsOf (searchScammers (Some ''Shop'') frankStore))"
proof -
  have a: "''Shop'' \<noteq> []" by simp
  have b: "includes_str (website rFrank) ''Shop''" by code_simp
  have c: "\<not> ciSubstring ''Shop'' (name rFrank)" by code_simp
  have d: "\<not> ciSubstring ''Shop'' (scamType rFrank)" by code_simp
  have e: "\<not> ciSubstring ''Shop'' (description rFrank)" by code_simp
  have f: "\<not> includes_str (phone rFrank) (toLowerCase ''Shop'')" by code_simp
  have g: "rFrank \<in> set (readScammers frankStore)"
    by (simp add: readScammers_cases frankStore_def)
  from search_ignores_website [OF a b c d e f, of frankStore] b g show ?thesis by simp
qed

subsection \<open>Creation, then listing\<close>

text \<open>
  C4, as the code has it: when \<open>name\<close> and \<open>scamType\<close> are non-empty, the data file may be
  read, the write of the collection goes through and the clock reading of the handler is
  not before the start of the call, the creation answers 201, and the listing that follows
  contains the new report, which carries the trimmed input, the file names in order, a
  non-empty id and a creation time not before the start; the listing holds exactly one more
  such report than the collection held before, so exactly one when it held none.
\<close>

theorem create_then_list:
  assumes "body_name rq = Some n" "n \<noteq> []" "body_scamType rq = Some t" "t \<noteq> []"
    and "dataWritable st" and "dataReadable st" and "start \<le> newDate clk"
  shows "statusOf (addScammer clk rq st) = 201 \<and>
         newScammer clk n t rq \<in> set (reportsOf (listScammers (snd (addScammer clk rq st)))) \<and>
         matchesInput start rq (newScammer clk n t rq) \<and>
         countMatching start rq (reportsOf (listScammers (snd (addScammer clk rq st))))
           = Suc (countMatching start rq (readScammers st))"
proof -
  let ?new = "newScammer clk n t rq"
  note ok = addScammer_ok [OF assms(1-5), of clk]
  have a: "statusOf (addScammer clk rq st) = 201" by (simp add: ok statusOf_def)
  have rd: "readScammers (snd (addScammer clk rq st)) = readScammers st @ [?new]"
    using assms(6) by (simp add: ok readScammers_cases)
  have l: "reportsOf (listScammers (snd (addScammer clk rq st)))
             = sortNewestFirst (readScammers st @ [?new])"
    by (simp add: reportsOf_def listScammers_def rd)
  have m: "matchesInput start rq ?new"
    using assms(1,3,7) by (rule matchesInput_newScammer)
  have b: "?new \<in> set (reportsOf (listScammers (snd (addScammer clk rq st))))"
    by (simp add: l set_sortNewestFirst)
  have c: "countMatching start rq (reportsOf (listScammers (snd (addScammer clk rq st))))
           = Suc (countMatching start rq (readScammers st))"
    by (simp add: countMatching_def l length_filter_sortNewestFirst m)
  from a b m c show ?thesis by simp
qed

theorem create_then_list_witness:
  "countMatching 1700000000000 rqAlice (readScammers stagedStore) = 0 \<and>
   countMatching 1700000000000 rqAlice
     (reportsOf (listScammers (snd (addScammer clk0 rqAlice stagedStore)))) = 1 \<and>
   statusOf (addScammer clk0 rqAlice stagedStore) = 201"
proof -
  have h: "body_name rqAlice = Some ''  Alice Wu ''" "''  Alice Wu '' \<noteq> []"
    "body_scamType rqAlice = Some ''Phishing''" "''Phishing'' \<noteq> []"
    "dataWritable stagedStore" "dataReadable stagedStore" "1700000000000 \<le> newDate clk0"
    by (simp_all add: rqAlice_def stagedStore_def clk0_def)
  have z: "countMatching 1700000000000 rqAlice (readScammers stagedStore) = 0"
    by (simp add: countMatching_def readScammers_cases stagedStore_def)
  from create_then_list [OF h] z show ?thesis by simp
qed

text \<open>
  C4 as stated fails, for a creation with name \<open>Bob\<close> and scam type \<open>Lottery\<close> that begins
  at 1700000000000. On a data file that refuses the write, the listing holds no such
  report. On a data file that takes the write and refuses the read, the creation answers
  201 and the listing is empty. After the same input was created twice within one
  millisecond, the listing holds two such reports. When the clock was set back by a
  millisecond during the call, the creation answers 201 and the listed report carries a
  creation time before the start, so no listed report is as the claim describes.
\<close>

theorem create_then_list_counterexample:
  "body_name rqBob = Some ''Bob'' \<and> body_scamType rqBob = Some ''Lottery'' \<and>
   countMatching 1700000000000 rqBob
     (reportsOf (listScammers (snd (addScammer clk0 rqBob readOnlyStore)))) = 0 \<and>
   statusOf (addScammer clk0 rqBob writeOnlyStore) = 201 \<and>
   reportsOf (listScammers (snd (addScammer clk0 rqBob writeOnlyStore))) = [] \<and>
   countMatching 1700000000000 rqBob
     (reportsOf (listScammers (snd (addScammer clk0 rqBob
        (snd (addScammer clk0 rqBob emptyStore)))))) = 2 \<and>
   statusOf (addScammer clkBack rqBob emptyStore) = 201 \<and>
   map createdAt (reportsOf (listScammers (snd (addScammer clkBack rqBob emptyStore))))
     = [1699999999999] \<and>
   countMatching 1700000000000 rqBob
     (reportsOf (listScammers (snd (addScammer clkBack rqBob emptyStore)))) = 0"
  by code_simp

subsection \<open>Deletion\<close>

text \<open>
  C5, as the code has it: a deletion by an id that no report carries answers 404 and leaves
  the disk as it was. When exactly one report of the collection carries the id, none of its
  evidence files that exist is refused removal and the write of the collection goes
  through, the deletion answers 200, removes every file named in the evidence of that
  report from the uploads (a name with no file is passed over), persists the collection
  without that report, so that the listing no longer shows it, and a second deletion by
  the same id answers 404.
\<close>

theorem deleteScammer_spec:
  "((\<forall>x\<in>set (readScammers st). id' x \<noteq> i) \<longrightarrow>
      deleteScammer i st = ((404, ErrorMsg ''Scammer tidak ditemukan''), st)) \<and>
   (filter (\<lambda>x. id' x = i) (readScammers st) = [r] \<and>
    set (evidence r) \<inter> uploads st \<inter> uploadsLocked st = {} \<and>
    dataWritable st \<longrightarrow>
      statusOf (deleteScammer i st) = 200 \<and>
      uploads (snd (deleteScammer i st)) = uploads st - set (evidence r) \<and>
      readScammers (snd (deleteScammer i st)) = remove1 r (readScammers st) \<and>
      r \<notin> set (reportsOf (listScammers (snd (deleteScammer i st)))) \<and>
      deleteScammer i (snd (deleteScammer i st))
        = ((404, ErrorMsg ''Scammer tidak ditemukan''), snd (deleteScammer i st)))"
proof -
  have a: "(\<forall>x\<in>set (readScammers st). id' x \<noteq> i) \<longrightarrow>
      deleteScammer i st = ((404, ErrorMsg ''Scammer tidak ditemukan''), st)"
    using deleteScammer_notFound by blast
  have b: "statusOf (deleteScammer i st) = 200 \<and>
      uploads (snd (deleteScammer i st)) = uploads st - set (evidence r) \<and>
      readScammers (snd (deleteScammer i st)) = remove1 r (readScammers st) \<and>
      r \<notin> set (reportsOf (listScammers (snd (deleteScammer i st)))) \<and>
      deleteScammer i (snd (deleteScammer i st))
        = ((404, ErrorMsg ''Scammer tidak ditemukan''), snd (deleteScammer i st))"
    if r: "filter (\<lambda>x. id' x = i) (readScammers st) = [r]"
      and u: "set (evidence r) \<inter> uploads st \<inter> uploadsLocked st = {}"
      and w: "dataWritable st"
  proof -
    let ?st' = "snd (deleteScammer i st)"
    note f = deleteScammer_found [OF r w u]
    have "r \<in> set (filter (\<lambda>x. id' x = i) (readScammers st))" by (simp add: r)
    then have mem: "r \<in> set (readScammers st)" and idr: "id' r = i" by simp_all
    have rdbl: "dataReadable st"
      using mem by (auto simp: readScammers_cases split: data_file.splits content.splits if_splits)
    have 1: "statusOf (deleteScammer i st) = 200" by (simp add: f statusOf_def)
    have 2: "uploads ?st' = uploads st - set (evidence r)" by (simp add: f)
    have 3: "readScammers ?st' = remove1 r (readScammers st)"
      using rdbl by (simp add: f readScammers_cases)
    have gone: "\<forall>x\<in>set (readScammers ?st'). id' x \<noteq> i"
      using remove1_only_carrier [OF r] by (simp add: 3)
    with idr have "r \<notin> set (readScammers ?st')" by blast
    then have 4: "r \<notin> set (reportsOf (listScammers ?st'))"
      by (simp add: reportsOf_def listScammers_def set_sortNewestFirst)
    from gone have 5: "deleteScammer i ?st' = ((404, ErrorMsg ''Scammer tidak ditemukan''), ?st')"
      by (rule deleteScammer_notFound)
    from 1 2 3 4 5 show ?thesis by simp
  qed
  from a b show ?thesis by blast
qed

theorem deleteScammer_spec_witness:
  "statusOf (deleteScammer ''1700000000000'' aliceStore) = 200 \<and>
   uploads (snd (deleteScammer ''1700000000000'' aliceStore)) = {''evidence-3.png''} \<and>
   reportsOf (listScammers (snd (deleteScammer ''1700000000000'' aliceStore))) = [r2021] \<and>
   statusOf (deleteScammer ''1700000000000''
              (snd (deleteScammer ''1700000000000'' aliceStore))) = 404 \<and>
   statusOf (deleteScammer ''42'' aliceStore) = 404"
proof -
  have rd: "readScammers aliceStore = [r2021, rAlice]"
    by (simp add: readScammers_cases aliceStore_def)
  have ids: "id' r2021 = ''1609459200000''" "id' rAlice = ''1700000000000''"
    by code_simp+
  have ev: "evidence rAlice = [''evidence-1.png'', ''evidence-2.png'']"
    by (simp add: rAlice_def newScammer_def rqAlice_def)
  have ne: "rAlice \<noteq> r2021" using ids by auto
  have h1: "\<forall>x\<in>set (readScammers aliceStore). id' x \<noteq> ''42''"
    by (simp add: rd ids)
  have w: "dataWritable aliceStore" by (simp add: aliceStore_def)
  have lk: "set (evidence rAlice) \<inter> uploads aliceStore \<inter> uploadsLocked aliceStore = {}"
    by (simp add: aliceStore_def)
  have only: "filter (\<lambda>x. id' x = ''1700000000000'') (readScammers aliceStore) = [rAlice]"
    by (simp add: rd ids)
  have up: "uploads aliceStore - set (evidence rAlice) = {''evidence-3.png''}"
    by (auto simp: ev aliceStore_def)
  have l: "reportsOf (listScammers (snd (deleteScammer ''1700000000000'' aliceStore)))
             = sortNewestFirst (readScammers (snd (deleteScammer ''1700000000000'' aliceStore)))"
    by (simp add: reportsOf_def listScammers_def)
  from deleteScammer_spec [where st = aliceStore and i = "''42''" and r = rAlice] h1
  have n: "statusOf (deleteScammer ''42'' aliceStore) = 404" by (simp add: statusOf_def)
  from deleteScammer_spec [where st = aliceStore and i = "''1700000000000''" and r = rAlice]
    only lk w
  have "statusOf (deleteScammer ''1700000000000'' aliceStore) = 200 \<and>
      uploads (snd (deleteScammer ''1700000000000'' aliceStore))
        = uploads aliceStore - set (evidence rAlice) \<and>
      readScammers (snd (deleteScammer ''1700000000000'' aliceStore))
        = remove1 rAlice (readScammers aliceStore) \<and>
      deleteScammer ''1700000000000'' (snd (deleteScammer ''1700000000000'' aliceStore))
        = ((404, ErrorMsg ''Scammer tidak ditemukan''),
           snd (deleteScammer ''1700000000000'' aliceStore))"
    by blast
  then show ?thesis using n up ne by (simp add: l rd statusOf_def sortNewestFirst_def)
qed

text \<open>
  C5 as stated fails for a report that exists and alone carries its id. On a data file that
  refuses the write, the deletion answers 500 after it has removed the two files, and the
  listing still shows the report. Where the second file may not be removed, the deletion
  answers 500 after it has removed the first file, writes nothing, and the listing still
  shows the report.
\<close>

theorem deleteScammer_refused_counterexample:
  "rAlice \<in> set (readScammers readOnlyAliceStore) \<and>
   fst (deleteScammer (id' rAlice) readOnlyAliceStore) = (500, ErrorMsg ''Gagal menghapus data'') \<and>
   uploads (snd (deleteScammer (id' rAlice) readOnlyAliceStore)) = {''evidence-3.png''} \<and>
   rAlice \<in> set (reportsOf (listScammers (snd (deleteScammer (id' rAlice) readOnlyAliceStore)))) \<and>
   rAlice \<in> set (readScammers lockedAliceStore) \<and>
   fst (deleteScammer (id' rAlice) lockedAliceStore) = (500, ErrorMsg ''Internal server error'') \<and>
   uploads (snd (deleteScammer (id' rAlice) lockedAliceStore))
     = {''evidence-2.png'', ''evidence-3.png''} \<and>
   rAlice \<in> set (reportsOf (listScammers (snd (deleteScammer (id' rAlice) lockedAliceStore))))"
  by code_simp

text \<open>
  Where two reports share an id, as after two creations in one millisecond, a deletion by
  that id removes the first of them only and a second deletion by the same id succeeds too.
\<close>

lemma deleteScammer_twice_on_shared_id:
  "statusOf (deleteScammer ''1700000000000'' twinStore) = 200 \<and>
   map name (readScammers (snd (deleteScammer ''1700000000000'' twinStore))) = [''Bob''] \<and>
   statusOf (deleteScammer ''1700000000000''
              (snd (deleteScammer ''1700000000000'' twinStore))) = 200"
  by code_simp

subsection \<open>Listing\<close>

text \<open>
  C6: the listing answers 200 with the whole collection ordered by \<open>createdAt\<close>, newest
  first, and leaves the disk as it is; a collection of three reports created at times
  \<open>t1 < t2 < t3\<close>, in whatever order it is stored, is listed as the third, the second, the
  first.
\<close>

theorem listScammers_newest_first:
  "statusOf (listScammers st) = 200 \<and>
   snd (listScammers st) = st \<and>
   mset (reportsOf (listScammers st)) = mset (readScammers st) \<and>
   sorted_wrt (\<lambda>a b. createdAt b \<le> createdAt a) (reportsOf (listScammers st)) \<and>
   (\<forall>r1 r2 r3. mset (readScammers st) = {#r1, r2, r3#} \<and>
       createdAt r1 < createdAt r2 \<and> createdAt r2 < createdAt r3 \<longrightarrow>
       reportsOf (listScammers st) = [r3, r2, r1])"
proof -
  have r: "reportsOf (listScammers st) = sortNewestFirst (readScammers st)"
    by (simp add: reportsOf_def listScammers_def)
  have a: "statusOf (listScammers st) = 200" by (simp add: statusOf_def listScammers_def)
  have b: "snd (listScammers st) = st" by (simp add: listScammers_def)
  have c: "mset (reportsOf (listScammers st)) = mset (readScammers st)"
    by (simp add: r mset_sortNewestFirst)
  have d: "sorted_wrt (\<lambda>a b. createdAt b \<le> createdAt a) (reportsOf (listScammers st))"
    by (simp add: r sorted_sortNewestFirst)
  have e: "\<forall>r1 r2 r3. mset (readScammers st) = {#r1, r2, r3#} \<and>
       createdAt r1 < createdAt r2 \<and> createdAt r2 < createdAt r3 \<longrightarrow>
       reportsOf (listScammers st) = [r3, r2, r1]"
    using sortNewestFirst_three by (simp add: r)
  from a b c d e show ?thesis by blast
qed

theorem listScammers_newest_first_witness:
  "reportsOf (listScammers threeStore) = [r2023, r2022, r2021] \<and>
   snd (listScammers threeStore) = threeStore"
proof -
  have m: "mset (readScammers threeStore) = {#r2021, r2022, r2023#}"
    by (simp add: readScammers_cases threeStore_def add_mset_commute)
  have t: "createdAt r2021 < createdAt r2022" "createdAt r2022 < createdAt r2023"
    by (simp_all add: r2021_def r2022_def r2023_def)
  from listScammers_newest_first [of threeStore] m t show ?thesis by blast
qed

subsection \<open>Reading a document that is not there or cannot be read\<close>

text \<open>
  C7: when the collection document is missing or empty (no bytes, or the empty array), the
  listing and the search answer with status 200 and no reports, and leave the disk as it is.
\<close>

theorem missing_or_empty_store_reads_as_empty:
  assumes "dataFile st = Missing \<or> dataFile st = File Empty \<or> dataFile st = File (Json [])"
  shows "listScammers st = ((200, Scammers []), st) \<and>
         searchScammers q st = ((200, Scammers []), st)"
proof -
  from assms have e: "readScammers st = []"
    by (auto simp: readScammers_cases)
  have l: "listScammers st = ((200, Scammers []), st)"
    by (simp add: listScammers_def e)
  have s: "searchScammers q st = ((200, Scammers []), st)"
    by (cases q) (simp_all add: searchScammers_def e falsy_def)
  from l s show ?thesis by simp
qed

theorem missing_store_reads_as_empty_witness:
  "dataFile missingStore = Missing \<and>
   listScammers missingStore = ((200, Scammers []), missingStore) \<and>
   searchScammers (Some ''alice'') missingStore = ((200, Scammers []), missingStore)"
proof -
  have h: "dataFile missingStore = Missing" by (simp add: missingStore_def)
  then have "dataFile missingStore = Missing \<or> dataFile missingStore = File Empty \<or>
             dataFile missingStore = File (Json [])" by simp
  from missing_or_empty_store_reads_as_empty [OF this, of "Some ''alice''"] h
  show ?thesis by simp
qed

text \<open>
  C9: whenever reading the document fails, be it that the file cannot be read or that its
  text does not parse, \<open>readScammers\<close> yields the empty collection and no error: the listing
  and the search answer 200 with no reports, a deletion answers 404, and a creation with
  non-empty \<open>name\<close> and \<open>scamType\<close> whose write goes through leaves a document that holds
  the new report and nothing else. Put by the answer alone: whenever such a creation answers
  201, the document holds the report of the answer and nothing else.
\<close>

theorem read_failure_yields_empty_collection:
  assumes "readFails st"
  shows "readScammers st = [] \<and>
         listScammers st = ((200, Scammers []), st) \<and>
         searchScammers q st = ((200, Scammers []), st) \<and>
         deleteScammer i st = ((404, ErrorMsg ''Scammer tidak ditemukan''), st) \<and>
         (body_name rq = Some n \<and> n \<noteq> [] \<and> body_scamType rq = Some t \<and> t \<noteq> [] \<and>
          dataWritable st \<longrightarrow>
            statusOf (addScammer clk rq st) = 201 \<and>
            dataFile (snd (addScammer clk rq st)) = File (Json [newScammer clk n t rq])) \<and>
         (statusOf (addScammer clk rq st) = 201 \<longrightarrow>
            (\<exists>r. snd (fst (addScammer clk rq st))
                    = Success ''Scammer berhasil ditambahkan'' (Some r) \<and>
                 dataFile (snd (addScammer clk rq st)) = File (Json [r])))"
proof -
  have e: "readScammers st = []" using assms by (rule readFails_empty)
  have l: "listScammers st = ((200, Scammers []), st)"
    by (simp add: listScammers_def e)
  have s: "searchScammers q st = ((200, Scammers []), st)"
    by (cases q) (simp_all add: searchScammers_def e falsy_def)
  have d: "deleteScammer i st = ((404, ErrorMsg ''Scammer tidak ditemukan''), st)"
    by (simp add: deleteScammer_def e)
  have c: "body_name rq = Some n \<and> n \<noteq> [] \<and> body_scamType rq = Some t \<and> t \<noteq> [] \<and>
          dataWritable st \<longrightarrow>
            statusOf (addScammer clk rq st) = 201 \<and>
            dataFile (snd (addScammer clk rq st)) = File (Json [newScammer clk n t rq])"
    by (simp add: addScammer_ok e statusOf_def)
  have p: "statusOf (addScammer clk rq st) = 201 \<longrightarrow>
            (\<exists>r. snd (fst (addScammer clk rq st))
                    = Success ''Scammer berhasil ditambahkan'' (Some r) \<and>
                 dataFile (snd (addScammer clk rq st)) = File (Json [r]))"
    by (simp add: addScammer_def writeScammers_def statusOf_def e split: option.splits)
  from e l s d c p show ?thesis by blast
qed

theorem read_failure_witness:
  "readFails corruptStore \<and>
   readScammers corruptStore = [] \<and>
   dataFile (snd (addScammer clk0 rqBob corruptStore))
     = File (Json [newScammer clk0 ''Bob'' ''Lottery'' rqBob])"
proof -
  have h: "readFails corruptStore"
    by (simp add: readFails_def corruptStore_def readFileSync_def JSON_parse_def)
  have p: "body_name rqBob = Some ''Bob'' \<and> ''Bob'' \<noteq> [] \<and>
           body_scamType rqBob = Some ''Lottery'' \<and> ''Lottery'' \<noteq> [] \<and>
           dataWritable corruptStore"
    by (simp add: rqBob_def corruptStore_def)
  from read_failure_yields_empty_collection
         [OF h, where rq = rqBob and n = "''Bob''" and t = "''Lottery''" and clk = clk0] h p
  show ?thesis by blast
qed

end
